theory Spec2Isabelle
  imports Main "HOL-Library.Sublist" "HOL-Library.AList"
begin

section \<open>Data model\<close>

text \<open>
  The integration's entry module \<^verbatim>\<open>custom_components/sonoff/__init__.py\<close> is embedded
  with explicit state passing. Everything the module mutates (the registries kept in
  \<^verbatim>\<open>hass.data[DOMAIN]\<close>, the module global \<^verbatim>\<open>UNIQUE_DEVICES\<close>, the device cache
  behind \<^verbatim>\<open>Store\<close>) is a field of one record; every call into a collaborator
  (cloud transport, local transport, platform forwarding, logger) appends an event to a
  trace, and every \<^verbatim>\<open>hass.async_create_task\<close> appends the created task to a list.
  A raised exception is the \<open>Inl\<close> branch of the result, returned together with the
  state reached when it was raised.
\<close>

text \<open>A device is a dict with a \<^verbatim>\<open>"deviceid"\<close> key; the rest of the dict is opaque here.\<close>

record device =
  deviceid :: string
  params :: string

text \<open>
  Exceptions. \<open>AuthError\<close> is the class imported from \<^verbatim>\<open>core.ewelink.cloud\<close>; the
  other two login failures stand for any exception that is not an \<open>AuthError\<close>.
  \<open>ConfigEntryNotReady\<close> and \<open>ConfigEntryAuthFailed\<close> wrap their cause, as
  \<^verbatim>\<open>raise ConfigEntryNotReady(e)\<close> does.
\<close>

datatype exn =
    AuthError
  | TimeoutError
  | ClientError
  | ConfigEntryNotReady exn
  | ConfigEntryAuthFailed exn
  | AssertionError
  | StopIteration
  | KeyError string

datatype ConfigEntryState =
    LOADED | SETUP_ERROR | MIGRATION_ERROR | SETUP_RETRY | NOT_LOADED
  | FAILED_UNLOAD | SETUP_IN_PROGRESS

text \<open>
  The config entry: \<open>data_username\<close> and \<open>data_password\<close> are
  \<^verbatim>\<open>entry.data.get(CONF_USERNAME)\<close> and \<^verbatim>\<open>entry.data.get(CONF_PASSWORD)\<close>
  (\<open>None\<close>: the key is absent), \<open>options_mode\<close> is \<^verbatim>\<open>entry.options.get(CONF_MODE)\<close>,
  \<open>options_debug\<close> the truth value of \<^verbatim>\<open>entry.options.get("debug")\<close>.
\<close>

record ConfigEntry =
  entry_id :: string
  data_username :: "string option"
  data_password :: "string option"
  options_mode :: "string option"
  options_debug :: bool
  state :: ConfigEntryState

text \<open>
  A registry, as far as this module reads and writes it: \<^verbatim>\<open>registry.cloud.auth\<close>
  (\<open>None\<close> until a login succeeded; line 146 tests \<^verbatim>\<open>is None\<close>, lines 179 and 212 its
  truth value) and the device map \<^verbatim>\<open>registry.devices\<close>.
\<close>

record XRegistry =
  cloud_auth :: "string option"
  devices :: "string \<rightharpoonup> device"

datatype task =
    NormalSetup ConfigEntry
  | CacheSetup ConfigEntry

datatype event =
    SetupDebug
  | is_CloudLogin: CloudLogin string "string option" "string option"
  | CloudGetDevices string
  | CloudStart string
  | LocalStart string
  | StoreSave string "device list"
  | StoreLoad string
  | ForwardEntrySetup string string
  | SetupDevices string "device list"
  | AddUpdateListener string
  | OnUnload string
  | RegistrySend string device "(string \<times> string) list"
  | CamerasSend string string
  | LogCantLogin exn string
  | LogDevicesLoaded nat string
  | LogModeStart string
  | LogError string

text \<open>
  \<open>registries\<close> is \<^verbatim>\<open>hass.data[DOMAIN]\<close>, a dict in insertion order (the command service
  scans its values in that order). \<open>update_listeners\<close> holds the ids of the entries whose
  \<^verbatim>\<open>entry.update_listeners\<close> is not empty.
\<close>

record world =
  registries :: "(string \<times> XRegistry) list"
  UNIQUE_DEVICES :: "string \<rightharpoonup> string"
  store :: "string \<rightharpoonup> device list"
  logger_handlers :: bool
  update_listeners :: "string set"
  tasks :: "task list"
  trace :: "event list"

text \<open>
  What the cloud answers during one invocation: the outcome of
  \<^verbatim>\<open>registry.cloud.login\<close> (an exception, or the authentication it records) and of
  \<^verbatim>\<open>registry.cloud.get_devices\<close>.
\<close>

record env =
  login_result :: "exn + string"
  get_devices_result :: "exn + device list"

section \<open>Constants and small helpers\<close>

definition PLATFORMS :: "string list" where
  "PLATFORMS = [''binary_sensor'', ''button'', ''climate'', ''cover'', ''fan'', ''light'',
     ''remote'', ''sensor'', ''switch'']"

text \<open>
  \<^verbatim>\<open>DOMAIN\<close> comes from \<^verbatim>\<open>core/const.py\<close>, which is not among the sources; its value
  is the name of the integration's directory.
\<close>

definition DOMAIN :: string where
  "DOMAIN = ''sonoff''"

definition emit :: "event \<Rightarrow> world \<Rightarrow> world" where
  "emit ev w = w\<lparr>trace := trace w @ [ev]\<rparr>"

definition async_create_task :: "task \<Rightarrow> world \<Rightarrow> world" where
  "async_create_task t w = w\<lparr>tasks := tasks w @ [t]\<rparr>"

text \<open>
  Python's truth value of an optional string (a credential, or the recorded
  authentication): \<^verbatim>\<open>None\<close> and the empty value are false.
\<close>

definition truthy :: "string option \<Rightarrow> bool" where
  "truthy s = (case s of None \<Rightarrow> False | Some x \<Rightarrow> x \<noteq> [])"

text \<open>\<^verbatim>\<open>entry.options.get(CONF_MODE, "auto")\<close>\<close>

definition get_mode :: "ConfigEntry \<Rightarrow> string" where
  "get_mode entry = (case options_mode entry of None \<Rightarrow> ''auto'' | Some m \<Rightarrow> m)"

text \<open>\<^verbatim>\<open>XRegistry(session)\<close>: a fresh registry holds no authentication and no device.\<close>

definition new_XRegistry :: XRegistry where
  "new_XRegistry = \<lparr>cloud_auth = None, devices = Map.empty\<rparr>"

text \<open>The events and tasks added between an earlier state and a later one.\<close>

definition events_since :: "world \<Rightarrow> world \<Rightarrow> event list" where
  "events_since w w' = drop (length (trace w)) (trace w')"

definition tasks_since :: "world \<Rightarrow> world \<Rightarrow> task list" where
  "tasks_since w w' = drop (length (tasks w)) (tasks w')"

section \<open>The ownership filter\<close>

text \<open>Python's \<^verbatim>\<open>dict.setdefault(k, v)\<close>: the value returned, and the dict afterwards.\<close>

definition dict_setdefault :: "('k \<rightharpoonup> 'v) \<Rightarrow> 'k \<Rightarrow> 'v \<Rightarrow> 'v \<times> ('k \<rightharpoonup> 'v)" where
  "dict_setdefault d k v = (case d k of Some x \<Rightarrow> (x, d) | None \<Rightarrow> (v, d(k \<mapsto> v)))"

text \<open>
  \<^verbatim>\<open>internal_unique_devices\<close>: the list comprehension runs left to right, and each test
  may write \<^verbatim>\<open>UNIQUE_DEVICES\<close>; the table is threaded through and returned.
\<close>

fun internal_unique_devices ::
  "string \<Rightarrow> device list \<Rightarrow> (string \<rightharpoonup> string) \<Rightarrow> device list \<times> (string \<rightharpoonup> string)" where
  "internal_unique_devices uid [] ud = ([], ud)"
| "internal_unique_devices uid (d # ds) ud =
     (case dict_setdefault ud (deviceid d) uid of
        (owner, ud1) \<Rightarrow>
          (case internal_unique_devices uid ds ud1 of
             (rest, ud2) \<Rightarrow> (if owner = uid then d # rest else rest, ud2)))"

text \<open>
  The test the comprehension applies to a device, read against the table as it was
  before the call: the id is unowned, or owned by \<open>uid\<close> already.
\<close>

definition may_own :: "(string \<rightharpoonup> string) \<Rightarrow> string \<Rightarrow> device \<Rightarrow> bool" where
  "may_own ud uid d = (ud (deviceid d) = None \<or> ud (deviceid d) = Some uid)"

section \<open>Collaborators\<close>

text \<open>
  Modelled from the spec: \<^verbatim>\<open>XRegistry.setup_devices\<close> lives in \<^verbatim>\<open>core/ewelink\<close>, which
  is not among the sources. The spec (4.3): it "replaces/merges the owned device map";
  here every given device is stored under its id.
\<close>

definition setup_devices :: "XRegistry \<Rightarrow> device list \<Rightarrow> XRegistry" where
  "setup_devices r ds = r\<lparr>devices := fold (\<lambda>d m. m(deviceid d \<mapsto> d)) ds (devices r)\<rparr>"

text \<open>
  Modelled from the spec: \<^verbatim>\<open>XRegistryCloud.login\<close> (not among the sources) either raises
  or succeeds and records the authentication (spec 6: "lifecycle flag auth"); a failed
  login leaves the registry as it was.
\<close>

definition cloud_login ::
  "env \<Rightarrow> string \<Rightarrow> string option \<Rightarrow> string option \<Rightarrow> world \<Rightarrow> (exn + unit) \<times> world" where
  "cloud_login env eid username password w =
     (let w1 = emit (CloudLogin eid username password) w in
      case login_result env of
        Inl e \<Rightarrow> (Inl e, w1)
      | Inr token \<Rightarrow>
          (Inr (), w1\<lparr>registries :=
             AList.map_entry eid (\<lambda>r. r\<lparr>cloud_auth := Some token\<rparr>) (registries w1)\<rparr>))"

text \<open>\<^verbatim>\<open>f"{DOMAIN}/{entry.data['username']}.json"\<close>: the subscript raises on a missing key.\<close>

definition store_key :: "ConfigEntry \<Rightarrow> exn + string" where
  "store_key entry =
     (case data_username entry of
        None \<Rightarrow> Inl (KeyError ''username'')
      | Some u \<Rightarrow> Inr (DOMAIN @ ''/'' @ u @ ''.json''))"

section \<open>The bootstrap tasks\<close>

text \<open>Lines 194-197: the entry is forwarded to every platform.\<close>

definition forward_entry_setups :: "string \<Rightarrow> world \<Rightarrow> world" where
  "forward_entry_setups eid w = w\<lparr>trace := trace w @ map (ForwardEntrySetup eid) PLATFORMS\<rparr>"

text \<open>Lines 199-204: with no device list given, the cached one is loaded.\<close>

definition cache_load :: "ConfigEntry \<Rightarrow> world \<Rightarrow> (exn + device list option) \<times> world" where
  "cache_load entry w =
     (case store_key entry of
        Inl e \<Rightarrow> (Inl e, w)
      | Inr key \<Rightarrow>
          (let loaded = store w key;
               w1 = emit (StoreLoad key) w
           in case loaded of
                None \<Rightarrow> (Inr None, w1)
              | Some ds \<Rightarrow>
                  (Inr (Some ds),
                   if ds \<noteq> [] then emit (LogDevicesLoaded (length ds) ''Cache'') w1 else w1)))"

text \<open>
  Lines 206-209, the setup-devices step: a non-empty device list goes through the
  ownership filter, and what passes is handed to \<^verbatim>\<open>registry.setup_devices\<close>.
\<close>

definition setup_devices_step ::
  "string \<Rightarrow> XRegistry \<Rightarrow> device list option \<Rightarrow> world \<Rightarrow> world" where
  "setup_devices_step eid registry devs w =
     (case devs of
        None \<Rightarrow> w
      | Some ds \<Rightarrow>
          if ds = [] then w
          else (case internal_unique_devices eid ds (UNIQUE_DEVICES w) of
                  (owned, ud) \<Rightarrow>
                    (emit (SetupDevices eid owned) w)
                      \<lparr>UNIQUE_DEVICES := ud,
                       registries := AList.update eid (setup_devices registry owned) (registries w)\<rparr>))"

text \<open>Lines 211-225: the transports the mode selects are started, the hooks registered.\<close>

definition start_transports :: "ConfigEntry \<Rightarrow> XRegistry \<Rightarrow> world \<Rightarrow> world" where
  "start_transports entry registry w =
     (let eid = entry_id entry;
          mode = get_mode entry;
          w1 = (if mode \<noteq> ''local'' \<and> truthy (cloud_auth registry)
                then emit (CloudStart eid) w else w);
          w2 = (if mode \<noteq> ''cloud'' then emit (LocalStart eid) w1 else w1);
          w3 = emit (LogModeStart mode) w2;
          w4 = (if eid \<in> update_listeners w3 then w3
                else (emit (AddUpdateListener eid) w3)
                       \<lparr>update_listeners := insert eid (update_listeners w3)\<rparr>)
      in emit (OnUnload eid) w4)"

definition internal_cache_setup ::
  "ConfigEntry \<Rightarrow> device list option \<Rightarrow> world \<Rightarrow> (exn + unit) \<times> world" where
  "internal_cache_setup entry devices0 w =
     (let eid = entry_id entry;
          w1 = forward_entry_setups eid w
      in case (case devices0 of None \<Rightarrow> cache_load entry w1 | Some ds \<Rightarrow> (Inr (Some ds), w1)) of
           (Inl e, w2) \<Rightarrow> (Inl e, w2)
         | (Inr devs, w2) \<Rightarrow>
             (case map_of (registries w2) eid of
                None \<Rightarrow> (Inl (KeyError eid), w2)
              | Some registry \<Rightarrow>
                  (Inr (), start_transports entry registry
                             (setup_devices_step eid registry devs w2))))"

text \<open>Lines 177-188.\<close>

definition internal_normal_setup ::
  "env \<Rightarrow> ConfigEntry \<Rightarrow> world \<Rightarrow> (exn + unit) \<times> world" where
  "internal_normal_setup env entry w =
     (let eid = entry_id entry in
      case map_of (registries w) eid of
        None \<Rightarrow> (Inl (KeyError eid), w)
      | Some registry \<Rightarrow>
          if truthy (cloud_auth registry) then
            (let w1 = emit (CloudGetDevices eid) w in
             case get_devices_result env of
               Inl e \<Rightarrow> (Inl e, w1)
             | Inr ds \<Rightarrow>
                 (let w2 = emit (LogDevicesLoaded (length ds) ''Cloud'') w1 in
                  case store_key entry of
                    Inl e \<Rightarrow> (Inl e, w2)
                  | Inr key \<Rightarrow>
                      internal_cache_setup entry (Some ds)
                        ((emit (StoreSave key ds) w2)\<lparr>store := (store w2)(key \<mapsto> ds)\<rparr>)))
          else internal_cache_setup entry None w)"

section \<open>Entry setup\<close>

text \<open>Lines 120-126: the registry is looked up or created, the debug log set up.\<close>

definition registry_of :: "ConfigEntry \<Rightarrow> world \<Rightarrow> XRegistry" where
  "registry_of entry w =
     (case map_of (registries w) (entry_id entry) of None \<Rightarrow> new_XRegistry | Some r \<Rightarrow> r)"

definition ensure_registry :: "ConfigEntry \<Rightarrow> world \<Rightarrow> world" where
  "ensure_registry entry w =
     (case map_of (registries w) (entry_id entry) of
        None \<Rightarrow> w\<lparr>registries := AList.update (entry_id entry) new_XRegistry (registries w)\<rparr>
      | Some r \<Rightarrow> w)"

definition setup_debug :: "ConfigEntry \<Rightarrow> world \<Rightarrow> world" where
  "setup_debug entry w =
     (if options_debug entry \<and> \<not> logger_handlers w then emit SetupDebug w else w)"

text \<open>
  Lines 109-161. A task created before an exception is raised stays created: the state
  comes back with the exception.
\<close>

definition async_setup_entry :: "env \<Rightarrow> ConfigEntry \<Rightarrow> world \<Rightarrow> (exn + bool) \<times> world" where
  "async_setup_entry env entry w0 =
     (let eid = entry_id entry;
          w1 = setup_debug entry (ensure_registry entry w0);
          username = data_username entry;
          password = data_password entry;
          mode = get_mode entry
      in
      if state entry = SETUP_RETRY then
        (if mode \<in> set [''auto'', ''cloud''] then
           (case cloud_login env eid username password w1 of
              (Inl e, w2) \<Rightarrow> (Inl (ConfigEntryNotReady e), emit (LogCantLogin e mode) w2)
            | (Inr u, w2) \<Rightarrow>
                if mode = ''auto'' then (Inr True, emit (CloudStart eid) w2)
                else if mode = ''cloud'' then (Inr True, async_create_task (NormalSetup entry) w2)
                else (Inr True, w2))
         else (Inl AssertionError, w1))
      else if cloud_auth (registry_of entry w0) = None \<and> truthy username \<and> truthy password then
        (case cloud_login env eid username password w1 of
           (Inl e, w2) \<Rightarrow>
             (let w3 = emit (LogCantLogin e mode) w2;
                  w4 = (if mode \<in> set [''auto'', ''local'']
                        then async_create_task (CacheSetup entry) w3 else w3)
              in
              if mode \<in> set [''auto'', ''cloud''] then
                (if e = AuthError then (Inl (ConfigEntryAuthFailed e), w4)
                 else (Inl (ConfigEntryNotReady e), w4))
              else if mode = ''local'' then (Inr True, w4)
              else (Inl AssertionError, w4))
         | (Inr u, w2) \<Rightarrow> (Inr True, async_create_task (NormalSetup entry) w2))
      else (Inr True, async_create_task (NormalSetup entry) w1))"

section \<open>A setup cycle: the invocation and the tasks it created\<close>

fun run_task :: "env \<Rightarrow> task \<Rightarrow> world \<Rightarrow> (exn + unit) \<times> world" where
  "run_task env (NormalSetup entry) w = internal_normal_setup env entry w"
| "run_task env (CacheSetup entry) w = internal_cache_setup entry None w"

text \<open>
  The created tasks run in creation order; an exception of a task ends that task only
  and is collected, it never reaches the caller of the setup.
\<close>

fun run_tasks :: "env \<Rightarrow> task list \<Rightarrow> world \<Rightarrow> exn list \<times> world" where
  "run_tasks env [] w = ([], w)"
| "run_tasks env (t # ts) w =
     (case run_task env t w of
        (r, w1) \<Rightarrow>
          (case run_tasks env ts w1 of
             (es, w2) \<Rightarrow> ((case r of Inl e \<Rightarrow> [e] | Inr u \<Rightarrow> []) @ es, w2)))"

definition setup_cycle ::
  "env \<Rightarrow> ConfigEntry \<Rightarrow> world \<Rightarrow> (exn + bool) \<times> exn list \<times> world" where
  "setup_cycle env entry w =
     (case async_setup_entry env entry w of
        (r, w1) \<Rightarrow>
          (case run_tasks env (tasks_since w w1) w1 of
             (es, w2) \<Rightarrow> (r, es, w2)))"

section \<open>The command service\<close>

text \<open>
  Lines 83-102. The call data is a dict of strings (\<^verbatim>\<open>str\<close> of a string is the string).
  \<^verbatim>\<open>next\<close> without a default raises \<open>StopIteration\<close> when no registry holds the
  device; nothing in the function catches it (at the coroutine's boundary the interpreter
  turns it into a \<^verbatim>\<open>RuntimeError\<close>, which is raised to the caller all the same).
\<close>

definition send_command :: "(string \<times> string) list \<Rightarrow> world \<Rightarrow> (exn + unit) \<times> world" where
  "send_command call_data w =
     (case map_of call_data ''device'' of
        None \<Rightarrow> (Inl (KeyError ''device''), w)
      | Some did \<Rightarrow>
          (let data = AList.delete ''device'' call_data in
           if length did = 10 then
             (case find (\<lambda>(eid, r). devices r did \<noteq> None) (registries w) of
                None \<Rightarrow> (Inl StopIteration, w)
              | Some (eid, registry) \<Rightarrow>
                  (case devices registry did of
                     None \<Rightarrow> (Inl (KeyError did), w)
                   | Some dev \<Rightarrow> (Inr (), emit (RegistrySend eid dev data) w)))
           else if length did = 6 then
             (case map_of data ''cmd'' of
                None \<Rightarrow> (Inl (KeyError ''cmd''), w)
              | Some cmd \<Rightarrow> (Inr (), emit (CamerasSend did cmd) w))
           else (Inr (), emit (LogError (''Wrong deviceid '' @ did)) w)))"

section \<open>Auxiliary definitions\<close>

text \<open>
  The events each step of the setup adds to the trace, named so that the theorems can
  state a trace event by event, and example inputs at which the theorems are
  instantiated.
\<close>

text \<open>What \<open>setup_debug\<close> (lines 125-126) adds.\<close>

definition debug_events :: "ConfigEntry \<Rightarrow> world \<Rightarrow> event list" where
  "debug_events entry w = (if options_debug entry \<and> \<not> logger_handlers w then [SetupDebug] else [])"

text \<open>What \<open>start_transports\<close> (lines 211-225) adds.\<close>

definition transport_events :: "ConfigEntry \<Rightarrow> XRegistry \<Rightarrow> world \<Rightarrow> event list" where
  "transport_events entry registry w =
     (if get_mode entry \<noteq> ''local'' \<and> truthy (cloud_auth registry)
      then [CloudStart (entry_id entry)] else []) @
     (if get_mode entry \<noteq> ''cloud'' then [LocalStart (entry_id entry)] else []) @
     [LogModeStart (get_mode entry)] @
     (if entry_id entry \<in> update_listeners w then [] else [AddUpdateListener (entry_id entry)]) @
     [OnUnload (entry_id entry)]"

text \<open>What \<open>setup_devices_step\<close> (lines 206-209) adds.\<close>

definition populate_events :: "string \<Rightarrow> device list option \<Rightarrow> world \<Rightarrow> event list" where
  "populate_events eid devs w =
     (case devs of
        None \<Rightarrow> []
      | Some ds \<Rightarrow>
          if ds = [] then []
          else [SetupDevices eid (fst (internal_unique_devices eid ds (UNIQUE_DEVICES w)))])"

text \<open>
  Example inputs: a state with nothing in it, an entry for the account
  \<^verbatim>\<open>user@example.com\<close> with a given password, mode and state, and the two kinds of
  answers of the cloud.
\<close>

definition empty_world :: world where
  "empty_world = \<lparr>registries = [], UNIQUE_DEVICES = Map.empty, store = Map.empty,
     logger_handlers = False, update_listeners = {}, tasks = [], trace = []\<rparr>"

definition example_entry :: "string option \<Rightarrow> string option \<Rightarrow> ConfigEntryState \<Rightarrow> ConfigEntry" where
  "example_entry pw m st = \<lparr>entry_id = ''entryA'', data_username = Some ''user@example.com'',
     data_password = pw, options_mode = m, options_debug = False, state = st\<rparr>"

definition login_fails :: "exn \<Rightarrow> env" where
  "login_fails e = \<lparr>login_result = Inl e, get_devices_result = Inr []\<rparr>"

definition login_succeeds :: "device list \<Rightarrow> env" where
  "login_succeeds ds = \<lparr>login_result = Inr ''token'', get_devices_result = Inr ds\<rparr>"

text \<open>A state with one registry that holds one device, and one with two empty registries.\<close>

definition example_world :: world where
  "example_world = empty_world\<lparr>registries :=
     [(''entryA'', \<lparr>cloud_auth = Some ''token'',
         devices = [''1000abcd34'' \<mapsto> \<lparr>deviceid = ''1000abcd34'', params = ''p''\<rparr>]\<rparr>)]\<rparr>"

text \<open>A device id reported by two accounts.\<close>

definition shared_device :: "string \<Rightarrow> device" where
  "shared_device p = \<lparr>deviceid = ''1000abcd12'', params = p\<rparr>"

definition two_accounts :: world where
  "two_accounts = empty_world\<lparr>registries := [(''entryA'', new_XRegistry), (''entryB'', new_XRegistry)]\<rparr>"

text \<open>
  The bootstrap of account A with the devices it reports, followed by the bootstrap of
  account B with its own: the state after both.
\<close>

definition setup_A_then_B ::
  "ConfigEntry \<Rightarrow> device list \<Rightarrow> ConfigEntry \<Rightarrow> device list \<Rightarrow> world \<Rightarrow> world" where
  "setup_A_then_B entryA dsA entryB dsB w =
     snd (internal_cache_setup entryB (Some dsB) (snd (internal_cache_setup entryA (Some dsA) w)))"

section \<open>Properties of the ownership filter\<close>

lemma dict_setdefault_fst:
  "fst (dict_setdefault d k v) = (case d k of None \<Rightarrow> v | Some x \<Rightarrow> x)"
  by (simp add: dict_setdefault_def split: option.splits)

lemma dict_setdefault_snd:
  "snd (dict_setdefault d k v) = (case d k of None \<Rightarrow> d(k \<mapsto> v) | Some x \<Rightarrow> d)"
  by (simp add: dict_setdefault_def split: option.splits)

lemma internal_unique_devices_Cons_fst:
  "fst (internal_unique_devices uid (d # ds) ud) =
     (if fst (dict_setdefault ud (deviceid d) uid) = uid
      then d # fst (internal_unique_devices uid ds (snd (dict_setdefault ud (deviceid d) uid)))
      else fst (internal_unique_devices uid ds (snd (dict_setdefault ud (deviceid d) uid))))"
  by (simp split: prod.splits)

lemma internal_unique_devices_Cons_snd:
  "snd (internal_unique_devices uid (d # ds) ud) =
     snd (internal_unique_devices uid ds (snd (dict_setdefault ud (deviceid d) uid)))"
  by (simp split: prod.splits)

lemma may_own_after_setdefault:
  "may_own (snd (dict_setdefault ud k uid)) uid = may_own ud uid"
  by (rule ext) (auto simp: may_own_def dict_setdefault_snd split: option.splits)

lemma setdefault_returns_uid:
  "(fst (dict_setdefault ud (deviceid d) uid) = uid) = may_own ud uid d"
  by (auto simp: may_own_def dict_setdefault_fst split: option.splits)

text \<open>The devices kept are those whose id was unowned or owned by \<open>uid\<close> before the call.\<close>

lemma internal_unique_devices_fst:
  "fst (internal_unique_devices uid ds ud) = filter (may_own ud uid) ds"
proof (induction ds arbitrary: ud)
  case Nil
  then show ?case by simp
next
  case (Cons d ds)
  show ?case
    unfolding internal_unique_devices_Cons_fst Cons.IH setdefault_returns_uid
      may_own_after_setdefault
    by simp
qed

text \<open>The table afterwards: every unowned id of the list now belongs to \<open>uid\<close>.\<close>

lemma internal_unique_devices_snd:
  "snd (internal_unique_devices uid ds ud) k =
     (if ud k = None \<and> k \<in> deviceid ` set ds then Some uid else ud k)"
proof (induction ds arbitrary: ud)
  case Nil
  then show ?case by simp
next
  case (Cons d ds)
  show ?case
    unfolding internal_unique_devices_Cons_snd Cons.IH
    by (auto simp: dict_setdefault_snd split: option.splits)
qed

text \<open>
  The \<^verbatim>\<open>setdefault\<close> inside the filter: a second call with the same key returns what
  the first returned and changes nothing, whoever asks.
\<close>

lemma setdefault_first_write_wins:
  "dict_setdefault (snd (dict_setdefault ud did a)) did b
     = (fst (dict_setdefault ud did a), snd (dict_setdefault ud did a))"
  by (auto simp: dict_setdefault_def split: option.splits)

text \<open>Running the filter again for the same account gives the same devices and table.\<close>

lemma internal_unique_devices_idempotent:
  "internal_unique_devices a ds (snd (internal_unique_devices a ds ud))
     = internal_unique_devices a ds ud"
proof (rule prod_eqI)
  have "may_own (snd (internal_unique_devices a ds ud)) a d = may_own ud a d"
    if "d \<in> set ds" for d
    using that by (auto simp: may_own_def internal_unique_devices_snd)
  then show "fst (internal_unique_devices a ds (snd (internal_unique_devices a ds ud)))
      = fst (internal_unique_devices a ds ud)"
    unfolding internal_unique_devices_fst by (auto intro: filter_cong)
  show "snd (internal_unique_devices a ds (snd (internal_unique_devices a ds ud)))
      = snd (internal_unique_devices a ds ud)"
    by (rule ext) (simp add: internal_unique_devices_snd)
qed

text \<open>
  Claim C4. A claim of a device id for an account is the call of
  \<^verbatim>\<open>internal_unique_devices\<close> for that account on a device with that id. Claiming
  for \<open>a\<close> twice gives what claiming once gives, the devices kept and the table (this
  holds for any device list). A claim for \<open>b\<close> made after the claim for \<open>a\<close> never
  changes the table. When the id was unowned (or already owned by \<open>a\<close>) as \<open>a\<close>
  claimed it, the table names \<open>a\<close>, \<open>a\<close> keeps the device, and the later claim for
  another account \<open>b\<close> keeps nothing and leaves the table, with \<open>a\<close> as the owner, as
  it was.
\<close>

theorem claim_idempotent_first_write_wins:
  assumes "deviceid d' = deviceid d"
  shows "internal_unique_devices a ds (snd (internal_unique_devices a ds ud))
           = internal_unique_devices a ds ud \<and>
         snd (internal_unique_devices b [d'] (snd (internal_unique_devices a [d] ud)))
           = snd (internal_unique_devices a [d] ud) \<and>
         (ud (deviceid d) = None \<or> ud (deviceid d) = Some a \<longrightarrow>
            internal_unique_devices a [d] ud = ([d], ud(deviceid d \<mapsto> a)) \<and>
            (a \<noteq> b \<longrightarrow>
               internal_unique_devices b [d'] (snd (internal_unique_devices a [d] ud))
                 = ([], ud(deviceid d \<mapsto> a))))"
proof (intro conjI impI)
  show "internal_unique_devices a ds (snd (internal_unique_devices a ds ud))
           = internal_unique_devices a ds ud"
    by (rule internal_unique_devices_idempotent)
  show "snd (internal_unique_devices b [d'] (snd (internal_unique_devices a [d] ud)))
           = snd (internal_unique_devices a [d] ud)"
    using assms by (auto simp: dict_setdefault_def split: option.splits)
  assume free: "ud (deviceid d) = None \<or> ud (deviceid d) = Some a"
  then have same: "ud(deviceid d \<mapsto> a) = ud" if "ud (deviceid d) = Some a"
    using that by (auto simp: fun_upd_idem_iff)
  from free show first: "internal_unique_devices a [d] ud = ([d], ud(deviceid d \<mapsto> a))"
    using same by (auto simp: dict_setdefault_def split: option.splits)
  assume "a \<noteq> b"
  then show "internal_unique_devices b [d'] (snd (internal_unique_devices a [d] ud))
                 = ([], ud(deviceid d \<mapsto> a))"
    unfolding first snd_conv using assms by (simp add: dict_setdefault_def)
qed

theorem claim_idempotent_first_write_wins_witness:
  "internal_unique_devices ''entryA'' [shared_device ''a'']
      (snd (internal_unique_devices ''entryA'' [shared_device ''a''] Map.empty))
     = ([shared_device ''a''], [''1000abcd12'' \<mapsto> ''entryA'']) \<and>
   internal_unique_devices ''entryB'' [shared_device ''b'']
      (snd (internal_unique_devices ''entryA'' [shared_device ''a''] Map.empty))
     = ([], [''1000abcd12'' \<mapsto> ''entryA''])"
proof -
  have i: "deviceid (shared_device ''b'') = deviceid (shared_device ''a'')"
    and k: "deviceid (shared_device ''a'') = ''1000abcd12''"
    by (simp_all add: shared_device_def)
  have n: "(Map.empty :: string \<rightharpoonup> string) (deviceid (shared_device ''a'')) = None"
    by simp
  have ne: "''entryA'' \<noteq> ''entryB''"
    by simp
  note t = claim_idempotent_first_write_wins [OF i,
      of "''entryA''" "[shared_device ''a'']" Map.empty "''entryB''"]
  from t have twice: "internal_unique_devices ''entryA'' [shared_device ''a'']
      (snd (internal_unique_devices ''entryA'' [shared_device ''a''] Map.empty))
     = internal_unique_devices ''entryA'' [shared_device ''a''] Map.empty"
    by blast
  from t n have once: "internal_unique_devices ''entryA'' [shared_device ''a''] Map.empty
     = ([shared_device ''a''], [deviceid (shared_device ''a'') \<mapsto> ''entryA''])"
    by blast
  from t n ne have later: "internal_unique_devices ''entryB'' [shared_device ''b'']
      (snd (internal_unique_devices ''entryA'' [shared_device ''a''] Map.empty))
     = ([], [deviceid (shared_device ''a'') \<mapsto> ''entryA''])"
    by blast
  from trans [OF twice once] later show ?thesis
    unfolding k by (rule conjI)
qed

text \<open>
  Claim C9. For every device list and account id, what \<^verbatim>\<open>internal_unique_devices\<close>
  returns is a subsequence of its input (same relative order, nothing new), and after the
  call \<^verbatim>\<open>UNIQUE_DEVICES\<close> maps the id of every returned device to that account id.
\<close>

theorem unique_devices_subseq_owned:
  "subseq (fst (internal_unique_devices uid ds ud)) ds \<and>
   (\<forall>d \<in> set (fst (internal_unique_devices uid ds ud)).
      snd (internal_unique_devices uid ds ud) (deviceid d) = Some uid)"
  by (auto simp: internal_unique_devices_fst internal_unique_devices_snd may_own_def)

theorem unique_devices_subseq_owned_witness:
  "fst (internal_unique_devices ''A''
          [\<lparr>deviceid = ''1000abcd12'', params = ''p1''\<rparr>,
           \<lparr>deviceid = ''1000abcd34'', params = ''p2''\<rparr>,
           \<lparr>deviceid = ''1000abcd12'', params = ''p3''\<rparr>]
          [''1000abcd34'' \<mapsto> ''B''])
     = [\<lparr>deviceid = ''1000abcd12'', params = ''p1''\<rparr>,
        \<lparr>deviceid = ''1000abcd12'', params = ''p3''\<rparr>] \<and>
   subseq [\<lparr>deviceid = ''1000abcd12'', params = ''p1''\<rparr>,
           \<lparr>deviceid = ''1000abcd12'', params = ''p3''\<rparr>]
          [\<lparr>deviceid = ''1000abcd12'', params = ''p1''\<rparr>,
           \<lparr>deviceid = ''1000abcd34'', params = ''p2''\<rparr>,
           \<lparr>deviceid = ''1000abcd12'', params = ''p3''\<rparr>] \<and>
   snd (internal_unique_devices ''A''
          [\<lparr>deviceid = ''1000abcd12'', params = ''p1''\<rparr>,
           \<lparr>deviceid = ''1000abcd34'', params = ''p2''\<rparr>,
           \<lparr>deviceid = ''1000abcd12'', params = ''p3''\<rparr>]
          [''1000abcd34'' \<mapsto> ''B'']) ''1000abcd12'' = Some ''A''"
  using unique_devices_subseq_owned
    [of "''A''"
        "[\<lparr>deviceid = ''1000abcd12'', params = ''p1''\<rparr>,
          \<lparr>deviceid = ''1000abcd34'', params = ''p2''\<rparr>,
          \<lparr>deviceid = ''1000abcd12'', params = ''p3''\<rparr>]"
        "[''1000abcd34'' \<mapsto> ''B'']"]
  by (simp add: dict_setdefault_def)

section \<open>Properties of the setup\<close>

lemma trace_ensure_registry [simp]: "trace (ensure_registry entry w) = trace w"
  by (simp add: ensure_registry_def split: option.splits)

lemma tasks_ensure_registry [simp]: "tasks (ensure_registry entry w) = tasks w"
  by (simp add: ensure_registry_def split: option.splits)

lemma logger_ensure_registry [simp]:
  "logger_handlers (ensure_registry entry w) = logger_handlers w"
  by (simp add: ensure_registry_def split: option.splits)

lemma listeners_ensure_registry [simp]:
  "update_listeners (ensure_registry entry w) = update_listeners w"
  by (simp add: ensure_registry_def split: option.splits)

lemma table_ensure_registry [simp]:
  "UNIQUE_DEVICES (ensure_registry entry w) = UNIQUE_DEVICES w"
  by (simp add: ensure_registry_def split: option.splits)

lemma store_ensure_registry [simp]:
  "store (ensure_registry entry w) = store w"
  by (simp add: ensure_registry_def split: option.splits)

lemma map_of_ensure_registry [simp]:
  "map_of (registries (ensure_registry entry w)) (entry_id entry) = Some (registry_of entry w)"
  by (simp add: ensure_registry_def registry_of_def update_conv' split: option.splits)

lemma setup_debug_fields [simp]:
  "tasks (setup_debug entry w) = tasks w"
  "registries (setup_debug entry w) = registries w"
  "update_listeners (setup_debug entry w) = update_listeners w"
  "UNIQUE_DEVICES (setup_debug entry w) = UNIQUE_DEVICES w"
  "store (setup_debug entry w) = store w"
  "trace (setup_debug entry w) = trace w @ debug_events entry w"
  by (simp_all add: setup_debug_def emit_def debug_events_def)

lemma debug_events_ensure_registry [simp]:
  "debug_events entry (ensure_registry entry w) = debug_events entry w"
  by (simp add: debug_events_def)

lemma emit_fields [simp]:
  "tasks (emit ev w) = tasks w"
  "registries (emit ev w) = registries w"
  "update_listeners (emit ev w) = update_listeners w"
  "UNIQUE_DEVICES (emit ev w) = UNIQUE_DEVICES w"
  "store (emit ev w) = store w"
  "trace (emit ev w) = trace w @ [ev]"
  by (simp_all add: emit_def)

lemma async_create_task_fields [simp]:
  "tasks (async_create_task t w) = tasks w @ [t]"
  "registries (async_create_task t w) = registries w"
  "update_listeners (async_create_task t w) = update_listeners w"
  "UNIQUE_DEVICES (async_create_task t w) = UNIQUE_DEVICES w"
  "store (async_create_task t w) = store w"
  "trace (async_create_task t w) = trace w"
  by (simp_all add: async_create_task_def)

lemma forward_entry_setups_fields [simp]:
  "tasks (forward_entry_setups eid w) = tasks w"
  "registries (forward_entry_setups eid w) = registries w"
  "update_listeners (forward_entry_setups eid w) = update_listeners w"
  "UNIQUE_DEVICES (forward_entry_setups eid w) = UNIQUE_DEVICES w"
  "store (forward_entry_setups eid w) = store w"
  "trace (forward_entry_setups eid w) = trace w @ map (ForwardEntrySetup eid) PLATFORMS"
  by (simp_all add: forward_entry_setups_def)

lemma setup_devices_step_fields [simp]:
  "tasks (setup_devices_step eid r devs w) = tasks w"
  "update_listeners (setup_devices_step eid r devs w) = update_listeners w"
  "store (setup_devices_step eid r devs w) = store w"
  "trace (setup_devices_step eid r devs w) = trace w @ populate_events eid devs w"
  by (simp_all add: setup_devices_step_def populate_events_def emit_def
      split: option.splits prod.splits)

lemma start_transports_fields [simp]:
  "tasks (start_transports entry r w) = tasks w"
  "registries (start_transports entry r w) = registries w"
  "UNIQUE_DEVICES (start_transports entry r w) = UNIQUE_DEVICES w"
  "store (start_transports entry r w) = store w"
  "trace (start_transports entry r w) = trace w @ transport_events entry r w"
  by (simp_all add: start_transports_def transport_events_def emit_def Let_def)

lemma internal_cache_setup_given:
  assumes "map_of (registries w) (entry_id entry) = Some r"
  shows "internal_cache_setup entry (Some ds) w =
    (Inr (), start_transports entry r
      (setup_devices_step (entry_id entry) r (Some ds) (forward_entry_setups (entry_id entry) w)))"
  using assms by (simp add: internal_cache_setup_def Let_def)

lemma cache_load_ok:
  assumes "data_username entry = Some u"
  shows "fst (cache_load entry w) = Inr (store w (DOMAIN @ ''/'' @ u @ ''.json''))"
    and "tasks (snd (cache_load entry w)) = tasks w"
    and "registries (snd (cache_load entry w)) = registries w"
    and "update_listeners (snd (cache_load entry w)) = update_listeners w"
    and "UNIQUE_DEVICES (snd (cache_load entry w)) = UNIQUE_DEVICES w"
    and "trace (snd (cache_load entry w)) = trace w @
           StoreLoad (DOMAIN @ ''/'' @ u @ ''.json'') #
           (case store w (DOMAIN @ ''/'' @ u @ ''.json'') of
              None \<Rightarrow> []
            | Some ds \<Rightarrow> if ds = [] then [] else [LogDevicesLoaded (length ds) ''Cache''])"
  using assms
  by (simp_all add: cache_load_def store_key_def Let_def split: option.splits)

lemma internal_cache_setup_cached:
  assumes "map_of (registries w) (entry_id entry) = Some r"
    and "data_username entry = Some u"
  shows "internal_cache_setup entry None w =
    (Inr (), start_transports entry r
      (setup_devices_step (entry_id entry) r (store w (DOMAIN @ ''/'' @ u @ ''.json''))
        (snd (cache_load entry (forward_entry_setups (entry_id entry) w)))))"
proof -
  obtain x w' where c: "cache_load entry (forward_entry_setups (entry_id entry) w) = (x, w')"
    by (cases "cache_load entry (forward_entry_setups (entry_id entry) w)")
  from cache_load_ok(1,3) [OF assms(2), of "forward_entry_setups (entry_id entry) w"] c
  have x: "x = Inr (store w (DOMAIN @ ''/'' @ u @ ''.json''))"
    and r: "registries w' = registries w"
    by simp_all
  show ?thesis
    using assms(1) by (simp add: internal_cache_setup_def Let_def c x r)
qed

lemma run_single_task [simp]:
  "run_tasks env [t] w = ((case fst (run_task env t w) of Inl e \<Rightarrow> [e] | Inr u \<Rightarrow> []),
                          snd (run_task env t w))"
  by (simp split: prod.splits)

lemma setup_cycle_unfold:
  "setup_cycle env entry w =
     (fst (async_setup_entry env entry w),
      run_tasks env (tasks_since w (snd (async_setup_entry env entry w)))
        (snd (async_setup_entry env entry w)))"
  by (simp add: setup_cycle_def split: prod.splits)

lemma events_since_append [simp]:
  "trace w' = trace w @ evs \<Longrightarrow> events_since w w' = evs"
  by (simp add: events_since_def)

lemma tasks_since_append [simp]:
  "tasks w' = tasks w @ ts \<Longrightarrow> tasks_since w w' = ts"
  by (simp add: tasks_since_def)

lemma map_of_map_entry_same:
  "map_of (AList.map_entry k f al) k = map_option f (map_of al k)"
  by (simp add: map_of_map_entry split: option.splits)

text \<open>The four ways through the entry setup, as equations.\<close>

lemma retry_login_failure:
  assumes "state entry = SETUP_RETRY" and "login_result env = Inl e"
    and "get_mode entry = ''auto'' \<or> get_mode entry = ''cloud''"
  shows "async_setup_entry env entry w =
    (Inl (ConfigEntryNotReady e),
     emit (LogCantLogin e (get_mode entry))
       (emit (CloudLogin (entry_id entry) (data_username entry) (data_password entry))
         (setup_debug entry (ensure_registry entry w))))"
  using assms by (auto simp: async_setup_entry_def cloud_login_def Let_def)

lemma retry_login_success:
  assumes "state entry = SETUP_RETRY" and "login_result env = Inr token"
    and "get_mode entry = ''auto'' \<or> get_mode entry = ''cloud''"
  shows "async_setup_entry env entry w =
    (Inr True,
     (if get_mode entry = ''auto'' then emit (CloudStart (entry_id entry))
      else async_create_task (NormalSetup entry))
       ((emit (CloudLogin (entry_id entry) (data_username entry) (data_password entry))
           (setup_debug entry (ensure_registry entry w)))
         \<lparr>registries := AList.map_entry (entry_id entry) (\<lambda>r. r\<lparr>cloud_auth := Some token\<rparr>)
            (registries (ensure_registry entry w))\<rparr>))"
  using assms by (auto simp: async_setup_entry_def cloud_login_def Let_def)

lemma first_login_failure:
  assumes "state entry \<noteq> SETUP_RETRY"
    and "cloud_auth (registry_of entry w) = None"
    and "truthy (data_username entry)" and "truthy (data_password entry)"
    and "login_result env = Inl e"
  shows "async_setup_entry env entry w =
    (if get_mode entry \<in> set [''auto'', ''cloud'']
     then (if e = AuthError then Inl (ConfigEntryAuthFailed e) else Inl (ConfigEntryNotReady e))
     else if get_mode entry = ''local'' then Inr True else Inl AssertionError,
     (if get_mode entry \<in> set [''auto'', ''local'']
      then async_create_task (CacheSetup entry) else id)
       (emit (LogCantLogin e (get_mode entry))
         (emit (CloudLogin (entry_id entry) (data_username entry) (data_password entry))
           (setup_debug entry (ensure_registry entry w)))))"
  using assms by (simp add: async_setup_entry_def cloud_login_def Let_def)

lemma first_no_login:
  assumes "state entry \<noteq> SETUP_RETRY"
    and "\<not> (cloud_auth (registry_of entry w) = None \<and> truthy (data_username entry)
            \<and> truthy (data_password entry))"
  shows "async_setup_entry env entry w =
    (Inr True, async_create_task (NormalSetup entry) (setup_debug entry (ensure_registry entry w)))"
  using assms by (auto simp: async_setup_entry_def Let_def)

lemma login_attempted_iff:
  "CloudLogin (entry_id entry) (data_username entry) (data_password entry)
      \<in> set (events_since w (snd (async_setup_entry env entry w))) \<longleftrightarrow>
   (if state entry = SETUP_RETRY then get_mode entry = ''auto'' \<or> get_mode entry = ''cloud''
    else cloud_auth (registry_of entry w) = None \<and> truthy (data_username entry)
         \<and> truthy (data_password entry))"
  by (auto simp: async_setup_entry_def events_since_def cloud_login_def emit_def
      async_create_task_def debug_events_def Let_def split: sum.splits)


lemmas example_defs = empty_world_def example_entry_def login_fails_def get_mode_def
  registry_of_def new_XRegistry_def truthy_def


text \<open>
  Claim C6. In mode \<open>cloud\<close>, an invocation whose login is attempted and fails with
  anything but an \<open>AuthError\<close> (a transient cause) raises \<open>ConfigEntryNotReady\<close>,
  the retryable failure, creates no task (no cache or local bootstrap), and leaves only
  the login and the warning in the trace; the whole cycle is that invocation. This holds
  on a first attempt and on a retry.
\<close>

theorem cloud_transient_failure_retryable:
  assumes "get_mode entry = ''cloud''"
    and "login_result env = Inl e" and "e \<noteq> AuthError"
    and "CloudLogin (entry_id entry) (data_username entry) (data_password entry)
           \<in> set (events_since w (snd (async_setup_entry env entry w)))"
  shows "fst (async_setup_entry env entry w) = Inl (ConfigEntryNotReady e) \<and>
         tasks_since w (snd (async_setup_entry env entry w)) = [] \<and>
         events_since w (snd (async_setup_entry env entry w)) =
           debug_events entry w @
           [CloudLogin (entry_id entry) (data_username entry) (data_password entry),
            LogCantLogin e ''cloud''] \<and>
         setup_cycle env entry w =
           (Inl (ConfigEntryNotReady e), [], snd (async_setup_entry env entry w))"
proof (cases "state entry = SETUP_RETRY")
  case True
  note eq = retry_login_failure [OF True assms(2), of w, simplified assms(1), simplified]
  show ?thesis
    by (simp add: eq setup_cycle_unfold)
next
  case False
  with assms(4) have pre: "cloud_auth (registry_of entry w) = None"
    "truthy (data_username entry)" "truthy (data_password entry)"
    by (simp_all add: login_attempted_iff)
  note eq = first_login_failure [OF False pre assms(2), simplified assms(1), simplified]
  show ?thesis
    using assms(3) by (simp add: eq setup_cycle_unfold)
qed


theorem cloud_transient_failure_retryable_witness:
  "fst (async_setup_entry (login_fails TimeoutError)
          (example_entry (Some ''secret'') (Some ''cloud'') NOT_LOADED) empty_world)
     = Inl (ConfigEntryNotReady TimeoutError) \<and>
   tasks_since empty_world
     (snd (async_setup_entry (login_fails TimeoutError)
          (example_entry (Some ''secret'') (Some ''cloud'') NOT_LOADED) empty_world)) = []"
proof -
  let ?entry = "example_entry (Some ''secret'') (Some ''cloud'') NOT_LOADED"
  have m: "get_mode ?entry = ''cloud''"
    by (simp add: example_defs)
  have l: "login_result (login_fails TimeoutError) = Inl TimeoutError"
    by (simp add: login_fails_def)
  have a: "CloudLogin (entry_id ?entry) (data_username ?entry) (data_password ?entry)
      \<in> set (events_since empty_world
              (snd (async_setup_entry (login_fails TimeoutError) ?entry empty_world)))"
    unfolding login_attempted_iff by (simp add: example_defs)
  from cloud_transient_failure_retryable [OF m l _ a] show ?thesis
    by simp
qed








lemma internal_normal_setup_no_auth:
  assumes "map_of (registries w) (entry_id entry) = Some r" and "\<not> truthy (cloud_auth r)"
  shows "internal_normal_setup env entry w = internal_cache_setup entry None w"
  using assms by (simp add: internal_normal_setup_def Let_def)

lemma internal_normal_setup_cloud:
  assumes "map_of (registries w) (entry_id entry) = Some r" and "truthy (cloud_auth r)"
    and "get_devices_result env = Inr ds" and "data_username entry = Some u"
  shows "internal_normal_setup env entry w =
    internal_cache_setup entry (Some ds)
      ((emit (StoreSave (DOMAIN @ ''/'' @ u @ ''.json'') ds)
         (emit (LogDevicesLoaded (length ds) ''Cloud'')
           (emit (CloudGetDevices (entry_id entry)) w)))
        \<lparr>store := (store w)(DOMAIN @ ''/'' @ u @ ''.json'' \<mapsto> ds)\<rparr>)"
  using assms by (simp add: internal_normal_setup_def store_key_def Let_def)

lemma no_login_forward [simp]:
  "filter is_CloudLogin (map (ForwardEntrySetup eid) ps) = []"
  by (induction ps) simp_all

lemma no_login_populate [simp]:
  "filter is_CloudLogin (populate_events eid devs w) = []"
  by (simp add: populate_events_def split: option.splits)

lemma no_login_transport [simp]:
  "filter is_CloudLogin (transport_events entry r w) = []"
  by (simp add: transport_events_def)

lemma no_login_debug [simp]:
  "filter is_CloudLogin (debug_events entry w) = []"
  by (simp add: debug_events_def)

lemma cache_load_no_login:
  "\<exists>evs. trace (snd (cache_load entry w)) = trace w @ evs \<and> filter is_CloudLogin evs = []"
  by (simp add: cache_load_def Let_def split: sum.splits option.splits)

lemma internal_cache_setup_no_login:
  "\<exists>evs. trace (snd (internal_cache_setup entry devs w)) = trace w @ evs
         \<and> filter is_CloudLogin evs = []"
proof (cases devs)
  case (Some ds)
  then show ?thesis
    by (simp add: internal_cache_setup_def Let_def split: option.splits)
next
  case None
  obtain x w' where c: "cache_load entry (forward_entry_setups (entry_id entry) w) = (x, w')"
    by (cases "cache_load entry (forward_entry_setups (entry_id entry) w)")
  from cache_load_no_login [of entry "forward_entry_setups (entry_id entry) w"] c
  obtain evs where evs: "trace w' = trace w @ map (ForwardEntrySetup (entry_id entry)) PLATFORMS @ evs"
    "filter is_CloudLogin evs = []"
    by auto
  show ?thesis
    using None c evs
    by (simp add: internal_cache_setup_def Let_def split: sum.splits option.splits)
qed

lemma internal_normal_setup_no_login:
  "\<exists>evs. trace (snd (internal_normal_setup env entry w)) = trace w @ evs
         \<and> filter is_CloudLogin evs = []"
proof -
  have step: "\<exists>evs. trace (snd (internal_cache_setup entry devs w')) = trace w @ evs
         \<and> filter is_CloudLogin evs = []"
    if "trace w' = trace w @ pre" "filter is_CloudLogin pre = []" for devs w' pre
    using internal_cache_setup_no_login [of entry devs w'] that by auto
  show ?thesis
    unfolding internal_normal_setup_def Let_def
    by (auto split: option.splits sum.splits intro!: step)
qed

lemma no_login_cycle_of_normal_setup:
  assumes "async_setup_entry env entry w =
    (Inr True, async_create_task (NormalSetup entry) (setup_debug entry (ensure_registry entry w)))"
  shows "filter is_CloudLogin (events_since w (snd (snd (setup_cycle env entry w)))) = []"
proof -
  define w1 where "w1 = async_create_task (NormalSetup entry)
      (setup_debug entry (ensure_registry entry w))"
  have t1: "trace w1 = trace w @ debug_events entry w"
    and ts: "tasks_since w w1 = [NormalSetup entry]"
    by (simp_all add: w1_def)
  from internal_normal_setup_no_login [of env entry w1] obtain evs where
    evs: "trace (snd (internal_normal_setup env entry w1)) = trace w1 @ evs"
      "filter is_CloudLogin evs = []"
    by blast
  have "snd (snd (setup_cycle env entry w)) = snd (internal_normal_setup env entry w1)"
    using ts by (simp add: setup_cycle_unfold assms w1_def [symmetric] split: prod.splits)
  moreover have "events_since w (snd (internal_normal_setup env entry w1))
      = debug_events entry w @ evs"
    by (rule events_since_append) (simp add: evs(1) t1)
  ultimately show ?thesis
    by (simp add: evs(2))
qed


text \<open>
  Claim C7. On a retry re-entry (\<open>entry.state\<close> is \<open>SETUP_RETRY\<close>) whose login
  succeeds and records an authentication (a non-empty one, which the truth tests of
  lines 179 and 212 accept), the invocation returns \<open>True\<close> and never creates the cache bootstrap task.
  In mode \<open>auto\<close> it creates no task at all, and the only events are the login and the
  start of the cloud transport. In mode \<open>cloud\<close> it creates the normal setup task and
  nothing else; run with a device list from the cloud, that task enumerates the devices,
  saves them to the cache, forwards the platforms, populates the registry (when the list
  is not empty) and starts the cloud transport, in this order; it neither reads the
  cache nor starts the local transport.
\<close>

theorem retry_renewed_login:
  assumes "state entry = SETUP_RETRY" and "login_result env = Inr token"
    and "token \<noteq> []"
  shows "(get_mode entry = ''auto'' \<longrightarrow>
           fst (async_setup_entry env entry w) = Inr True \<and>
           tasks_since w (snd (async_setup_entry env entry w)) = [] \<and>
           events_since w (snd (snd (setup_cycle env entry w))) =
             debug_events entry w @
             [CloudLogin (entry_id entry) (data_username entry) (data_password entry),
              CloudStart (entry_id entry)]) \<and>
         (get_mode entry = ''cloud'' \<longrightarrow>
           fst (async_setup_entry env entry w) = Inr True \<and>
           tasks_since w (snd (async_setup_entry env entry w)) = [NormalSetup entry] \<and>
           events_since w (snd (async_setup_entry env entry w)) =
             debug_events entry w @
             [CloudLogin (entry_id entry) (data_username entry) (data_password entry)] \<and>
           (\<forall>u ds. data_username entry = Some u \<and> get_devices_result env = Inr ds \<longrightarrow>
              fst (snd (setup_cycle env entry w)) = [] \<and>
              events_since w (snd (snd (setup_cycle env entry w))) =
                debug_events entry w @
                [CloudLogin (entry_id entry) (data_username entry) (data_password entry),
                 CloudGetDevices (entry_id entry),
                 LogDevicesLoaded (length ds) ''Cloud'',
                 StoreSave (DOMAIN @ ''/'' @ u @ ''.json'') ds] @
                map (ForwardEntrySetup (entry_id entry)) PLATFORMS @
                (if ds = [] then []
                 else [SetupDevices (entry_id entry)
                         (fst (internal_unique_devices (entry_id entry) ds (UNIQUE_DEVICES w)))]) @
                [CloudStart (entry_id entry), LogModeStart ''cloud''] @
                (if entry_id entry \<in> update_listeners w then []
                 else [AddUpdateListener (entry_id entry)]) @
                [OnUnload (entry_id entry)]))"
proof (intro conjI impI allI)
  assume m: "get_mode entry = ''auto''"
  note eq = retry_login_success [OF assms(1,2), of w, simplified m, simplified]
  show "fst (async_setup_entry env entry w) = Inr True"
    by (simp add: eq)
  show "tasks_since w (snd (async_setup_entry env entry w)) = []"
    by (simp add: eq)
  show "events_since w (snd (snd (setup_cycle env entry w))) =
             debug_events entry w @
             [CloudLogin (entry_id entry) (data_username entry) (data_password entry),
              CloudStart (entry_id entry)]"
    by (simp add: setup_cycle_unfold eq)
next
  assume m: "get_mode entry = ''cloud''"
  note eq = retry_login_success [OF assms(1,2), of w, simplified m, simplified]
  define w1 where "w1 = snd (async_setup_entry env entry w)"
  show "fst (async_setup_entry env entry w) = Inr True"
    by (simp add: eq)
  show ts: "tasks_since w (snd (async_setup_entry env entry w)) = [NormalSetup entry]"
    by (simp add: eq)
  show "events_since w (snd (async_setup_entry env entry w)) =
             debug_events entry w @
             [CloudLogin (entry_id entry) (data_username entry) (data_password entry)]"
    by (simp add: eq)
  fix u ds
  assume h: "data_username entry = Some u \<and> get_devices_result env = Inr ds"
  have reg: "map_of (registries w1) (entry_id entry)
               = Some ((registry_of entry w)\<lparr>cloud_auth := Some token\<rparr>)"
    by (simp add: w1_def eq map_of_map_entry_same)
  have t1: "trace w1 = trace w @ debug_events entry w @
      [CloudLogin (entry_id entry) (data_username entry) (data_password entry)]"
    by (simp add: w1_def eq)
  have l1: "update_listeners w1 = update_listeners w"
    and u1: "UNIQUE_DEVICES w1 = UNIQUE_DEVICES w"
    by (simp_all add: w1_def eq)
  define w2 where "w2 = (emit (StoreSave (DOMAIN @ ''/'' @ u @ ''.json'') ds)
         (emit (LogDevicesLoaded (length ds) ''Cloud'')
           (emit (CloudGetDevices (entry_id entry)) w1)))
        \<lparr>store := (store w1)(DOMAIN @ ''/'' @ u @ ''.json'' \<mapsto> ds)\<rparr>"
  have reg2: "map_of (registries w2) (entry_id entry)
               = Some ((registry_of entry w)\<lparr>cloud_auth := Some token\<rparr>)"
    by (simp add: w2_def reg)
  have t2: "trace w2 = trace w1 @
      [CloudGetDevices (entry_id entry), LogDevicesLoaded (length ds) ''Cloud'',
       StoreSave (DOMAIN @ ''/'' @ u @ ''.json'') ds]"
    and l2: "update_listeners w2 = update_listeners w"
    and u2: "UNIQUE_DEVICES w2 = UNIQUE_DEVICES w"
    by (simp_all add: w2_def l1 u1)
  have tr: "truthy (cloud_auth ((registry_of entry w)\<lparr>cloud_auth := Some token\<rparr>))"
    using assms(3) by (simp add: truthy_def)
  have run: "internal_normal_setup env entry w1 = internal_cache_setup entry (Some ds) w2"
    using internal_normal_setup_cloud [OF reg tr, of env ds u] h
    by (simp add: w2_def)
  have cyc: "snd (setup_cycle env entry w) =
      ([], snd (internal_cache_setup entry (Some ds) w2))"
    using ts
    by (simp add: setup_cycle_unfold w1_def [symmetric] run
        internal_cache_setup_given [OF reg2] split: prod.splits)
  show "fst (snd (setup_cycle env entry w)) = []"
    by (simp add: cyc)
  show "events_since w (snd (snd (setup_cycle env entry w))) =
                debug_events entry w @
                [CloudLogin (entry_id entry) (data_username entry) (data_password entry),
                 CloudGetDevices (entry_id entry),
                 LogDevicesLoaded (length ds) ''Cloud'',
                 StoreSave (DOMAIN @ ''/'' @ u @ ''.json'') ds] @
                map (ForwardEntrySetup (entry_id entry)) PLATFORMS @
                (if ds = [] then []
                 else [SetupDevices (entry_id entry)
                         (fst (internal_unique_devices (entry_id entry) ds (UNIQUE_DEVICES w)))]) @
                [CloudStart (entry_id entry), LogModeStart ''cloud''] @
                (if entry_id entry \<in> update_listeners w then []
                 else [AddUpdateListener (entry_id entry)]) @
                [OnUnload (entry_id entry)]"
    unfolding cyc snd_conv
    by (rule events_since_append)
       (simp add: internal_cache_setup_given [OF reg2] t2 t1 l2 u2 m tr [simplified]
          populate_events_def transport_events_def)
qed

theorem retry_renewed_login_witness:
  "fst (async_setup_entry (login_succeeds [])
          (example_entry (Some ''secret'') None SETUP_RETRY) empty_world) = Inr True \<and>
   tasks_since empty_world (snd (async_setup_entry (login_succeeds [])
          (example_entry (Some ''secret'') None SETUP_RETRY) empty_world)) = [] \<and>
   events_since empty_world (snd (snd (setup_cycle (login_succeeds [])
          (example_entry (Some ''secret'') None SETUP_RETRY) empty_world))) =
     [CloudLogin ''entryA'' (Some ''user@example.com'') (Some ''secret''), CloudStart ''entryA''] \<and>
   tasks_since empty_world (snd (async_setup_entry (login_succeeds [shared_device ''a''])
          (example_entry (Some ''secret'') (Some ''cloud'') SETUP_RETRY) empty_world))
     = [NormalSetup (example_entry (Some ''secret'') (Some ''cloud'') SETUP_RETRY)] \<and>
   events_since empty_world (snd (snd (setup_cycle (login_succeeds [shared_device ''a''])
          (example_entry (Some ''secret'') (Some ''cloud'') SETUP_RETRY) empty_world))) =
     [CloudLogin ''entryA'' (Some ''user@example.com'') (Some ''secret''),
      CloudGetDevices ''entryA'',
      LogDevicesLoaded 1 ''Cloud'',
      StoreSave ''sonoff/user@example.com.json'' [shared_device ''a'']] @
     map (ForwardEntrySetup ''entryA'') PLATFORMS @
     [SetupDevices ''entryA'' [shared_device ''a''],
      CloudStart ''entryA'', LogModeStart ''cloud'',
      AddUpdateListener ''entryA'', OnUnload ''entryA'']"
proof -
  let ?entry = "example_entry (Some ''secret'') None SETUP_RETRY"
  have s: "state ?entry = SETUP_RETRY"
    by (simp add: example_entry_def)
  have l: "login_result (login_succeeds []) = Inr ''token''"
    by (simp add: login_succeeds_def)
  have m: "get_mode ?entry = ''auto''"
    by (simp add: example_defs)
  have f: "entry_id ?entry = ''entryA''" "data_username ?entry = Some ''user@example.com''"
    "data_password ?entry = Some ''secret''" "debug_events ?entry empty_world = []"
    by (simp_all add: example_entry_def debug_events_def)
  let ?centry = "example_entry (Some ''secret'') (Some ''cloud'') SETUP_RETRY"
  let ?cenv = "login_succeeds [shared_device ''a'']"
  have cs: "state ?centry = SETUP_RETRY"
    by (simp add: example_entry_def)
  have cl: "login_result ?cenv = Inr ''token''"
    by (simp add: login_succeeds_def)
  have cm: "get_mode ?centry = ''cloud''"
    by (simp add: example_defs)
  have cf: "entry_id ?centry = ''entryA''" "data_username ?centry = Some ''user@example.com''"
    "data_password ?centry = Some ''secret''" "debug_events ?centry empty_world = []"
    "get_devices_result ?cenv = Inr [shared_device ''a'']"
    "update_listeners empty_world = {}"
    "fst (internal_unique_devices ''entryA'' [shared_device ''a''] (UNIQUE_DEVICES empty_world))
       = [shared_device ''a'']"
    by (simp_all add: example_entry_def debug_events_def login_succeeds_def empty_world_def
        dict_setdefault_def)
  from retry_renewed_login [OF s l, of empty_world] have auto_part:
    "fst (async_setup_entry (login_succeeds []) ?entry empty_world) = Inr True \<and>
     tasks_since empty_world (snd (async_setup_entry (login_succeeds []) ?entry empty_world)) = [] \<and>
     events_since empty_world (snd (snd (setup_cycle (login_succeeds []) ?entry empty_world))) =
       [CloudLogin ''entryA'' (Some ''user@example.com'') (Some ''secret''), CloudStart ''entryA'']"
    unfolding f by (simp add: m)
  from retry_renewed_login [OF cs cl, of empty_world] have cloud_part:
    "tasks_since empty_world (snd (async_setup_entry ?cenv ?centry empty_world))
       = [NormalSetup ?centry] \<and>
     events_since empty_world (snd (snd (setup_cycle ?cenv ?centry empty_world))) =
       [CloudLogin ''entryA'' (Some ''user@example.com'') (Some ''secret''),
        CloudGetDevices ''entryA'',
        LogDevicesLoaded 1 ''Cloud'',
        StoreSave ''sonoff/user@example.com.json'' [shared_device ''a'']] @
       map (ForwardEntrySetup ''entryA'') PLATFORMS @
       [SetupDevices ''entryA'' [shared_device ''a''],
        CloudStart ''entryA'', LogModeStart ''cloud'',
        AddUpdateListener ''entryA'', OnUnload ''entryA'']"
    unfolding cf by (simp add: cm DOMAIN_def dict_setdefault_def empty_world_def)
  from auto_part cloud_part show ?thesis
    by simp
qed

text \<open>
  Claim C8. A first invocation for an account in mode \<open>local\<close> with no password
  returns \<open>True\<close> (no exception reaches the caller), creates the normal setup task, and
  no login is attempted during the whole cycle. When the entry has a username (the key
  of the device cache) and the cloud, if the registry still holds an authentication
  that line 179 finds true, answers the device query, the task ends without an
  exception, with the local transport started and the cloud transport not started.
\<close>

theorem local_without_password_ready:
  assumes "state entry \<noteq> SETUP_RETRY"
    and "get_mode entry = ''local''"
    and "\<not> truthy (data_password entry)"
  shows "fst (setup_cycle env entry w) = Inr True \<and>
         tasks_since w (snd (async_setup_entry env entry w)) = [NormalSetup entry] \<and>
         filter is_CloudLogin (events_since w (snd (snd (setup_cycle env entry w)))) = [] \<and>
         (\<forall>u. data_username entry = Some u \<and>
               (\<not> truthy (cloud_auth (registry_of entry w)) \<or>
                (\<exists>ds. get_devices_result env = Inr ds)) \<longrightarrow>
            fst (snd (setup_cycle env entry w)) = [] \<and>
            LocalStart (entry_id entry)
              \<in> set (events_since w (snd (snd (setup_cycle env entry w)))) \<and>
            (\<forall>x. CloudStart x
              \<notin> set (events_since w (snd (snd (setup_cycle env entry w))))))"
proof -
  note eq = first_no_login [OF assms(1), of w env, simplified assms(3), simplified]
  define w1 where "w1 = snd (async_setup_entry env entry w)"
  have reg: "map_of (registries w1) (entry_id entry) = Some (registry_of entry w)"
    and t1: "trace w1 = trace w @ debug_events entry w"
    and ts: "tasks_since w w1 = [NormalSetup entry]"
    by (simp_all add: w1_def eq)
  have cyc: "snd (setup_cycle env entry w) =
      ((case fst (internal_normal_setup env entry w1) of Inl e \<Rightarrow> [e] | Inr u \<Rightarrow> []),
       snd (internal_normal_setup env entry w1))"
    using ts by (simp add: setup_cycle_unfold w1_def [symmetric] split: prod.splits)
  have a: "fst (setup_cycle env entry w) = Inr True"
    by (simp add: setup_cycle_unfold eq)
  have b: "tasks_since w (snd (async_setup_entry env entry w)) = [NormalSetup entry]"
    using ts by (simp add: w1_def)
  have c: "filter is_CloudLogin (events_since w (snd (snd (setup_cycle env entry w)))) = []"
    by (rule no_login_cycle_of_normal_setup) (rule eq)
  have d: "fst (snd (setup_cycle env entry w)) = [] \<and>
            LocalStart (entry_id entry)
              \<in> set (events_since w (snd (snd (setup_cycle env entry w)))) \<and>
            (\<forall>x. CloudStart x
              \<notin> set (events_since w (snd (snd (setup_cycle env entry w)))))"
    if u: "data_username entry = Some u"
      and g: "\<not> truthy (cloud_auth (registry_of entry w))
              \<or> (\<exists>ds. get_devices_result env = Inr ds)"
    for u
  proof (cases "truthy (cloud_auth (registry_of entry w))")
    case False
    note run = internal_normal_setup_no_auth [OF reg False, of env]
    have ev: "\<exists>evs. events_since w (snd (internal_normal_setup env entry w1)) = evs
          \<and> LocalStart (entry_id entry) \<in> set evs \<and> (\<forall>x. CloudStart x \<notin> set evs)"
      unfolding run events_since_def
      by (auto simp: internal_cache_setup_cached [OF reg u] cache_load_ok [OF u] t1
          debug_events_def populate_events_def transport_events_def assms(2)
          split: option.splits)
    show ?thesis
      using ev by (simp add: cyc run internal_cache_setup_cached [OF reg u])
  next
    case True
    with g obtain ds where ds: "get_devices_result env = Inr ds"
      by auto
    note run = internal_normal_setup_cloud [OF reg True ds u]
    define w2 where "w2 = (emit (StoreSave (DOMAIN @ ''/'' @ u @ ''.json'') ds)
         (emit (LogDevicesLoaded (length ds) ''Cloud'')
           (emit (CloudGetDevices (entry_id entry)) w1)))
        \<lparr>store := (store w1)(DOMAIN @ ''/'' @ u @ ''.json'' \<mapsto> ds)\<rparr>"
    have reg2: "map_of (registries w2) (entry_id entry) = Some (registry_of entry w)"
      by (simp add: w2_def reg)
    have run2: "internal_normal_setup env entry w1 = internal_cache_setup entry (Some ds) w2"
      by (simp add: run w2_def)
    have t2: "trace w2 = trace w @ debug_events entry w @
      [CloudGetDevices (entry_id entry), LogDevicesLoaded (length ds) ''Cloud'',
       StoreSave (DOMAIN @ ''/'' @ u @ ''.json'') ds]"
      by (simp add: w2_def t1)
    have ev: "\<exists>evs. events_since w (snd (internal_cache_setup entry (Some ds) w2)) = evs
          \<and> LocalStart (entry_id entry) \<in> set evs \<and> (\<forall>x. CloudStart x \<notin> set evs)"
      unfolding events_since_def
      by (auto simp: internal_cache_setup_given [OF reg2] t2
          debug_events_def populate_events_def transport_events_def assms(2))
    show ?thesis
      using ev by (simp add: cyc run2 internal_cache_setup_given [OF reg2])
  qed
  from a b c d show ?thesis
    by blast
qed


theorem local_without_password_ready_witness:
  "fst (setup_cycle (login_fails AuthError)
          (example_entry None (Some ''local'') NOT_LOADED) empty_world) = Inr True \<and>
   filter is_CloudLogin (events_since empty_world (snd (snd (setup_cycle (login_fails AuthError)
          (example_entry None (Some ''local'') NOT_LOADED) empty_world)))) = [] \<and>
   fst (snd (setup_cycle (login_fails AuthError)
          (example_entry None (Some ''local'') NOT_LOADED) empty_world)) = [] \<and>
   LocalStart ''entryA'' \<in> set (events_since empty_world (snd (snd (setup_cycle
          (login_fails AuthError) (example_entry None (Some ''local'') NOT_LOADED) empty_world))))"
proof -
  let ?entry = "example_entry None (Some ''local'') NOT_LOADED"
  have s: "state ?entry \<noteq> SETUP_RETRY"
    by (simp add: example_entry_def)
  have m: "get_mode ?entry = ''local''"
    by (simp add: example_defs)
  have p: "\<not> truthy (data_password ?entry)"
    by (simp add: example_defs)
  have f: "entry_id ?entry = ''entryA''" "data_username ?entry = Some ''user@example.com''"
    "\<not> truthy (cloud_auth (registry_of ?entry empty_world))"
    by (simp_all add: example_defs)
  from local_without_password_ready [OF s m p, of "login_fails AuthError" empty_world]
  show ?thesis
    using f by simp
qed


text \<open>
  Claim C10, amended to first attempts. An invocation that is not a retry re-entry, whose
  registry holds no authentication and whose username or password is missing (absent or
  empty), attempts no login, whatever the mode, creates the normal setup task and returns
  \<open>True\<close>. No login occurs in the task either; with a username in the entry the task
  reads the device cache and never queries the cloud for devices.
\<close>

theorem missing_credentials_no_login:
  assumes "state entry \<noteq> SETUP_RETRY"
    and "cloud_auth (registry_of entry w) = None"
    and "\<not> truthy (data_username entry) \<or> \<not> truthy (data_password entry)"
  shows "fst (async_setup_entry env entry w) = Inr True \<and>
         tasks_since w (snd (async_setup_entry env entry w)) = [NormalSetup entry] \<and>
         events_since w (snd (async_setup_entry env entry w)) = debug_events entry w \<and>
         filter is_CloudLogin (events_since w (snd (snd (setup_cycle env entry w)))) = [] \<and>
         (\<forall>u. data_username entry = Some u \<longrightarrow>
            fst (snd (setup_cycle env entry w)) = [] \<and>
            StoreLoad (DOMAIN @ ''/'' @ u @ ''.json'')
              \<in> set (events_since w (snd (snd (setup_cycle env entry w)))) \<and>
            (\<forall>x. CloudGetDevices x
              \<notin> set (events_since w (snd (snd (setup_cycle env entry w))))))"
proof -
  from assms(3) have "\<not> (cloud_auth (registry_of entry w) = None \<and> truthy (data_username entry)
            \<and> truthy (data_password entry))"
    by blast
  note eq = first_no_login [OF assms(1) this, of env]
  define w1 where "w1 = snd (async_setup_entry env entry w)"
  have reg: "map_of (registries w1) (entry_id entry) = Some (registry_of entry w)"
    and t1: "trace w1 = trace w @ debug_events entry w"
    and ts: "tasks_since w w1 = [NormalSetup entry]"
    by (simp_all add: w1_def eq)
  have cyc: "snd (setup_cycle env entry w) =
      ((case fst (internal_normal_setup env entry w1) of Inl e \<Rightarrow> [e] | Inr u \<Rightarrow> []),
       snd (internal_normal_setup env entry w1))"
    using ts by (simp add: setup_cycle_unfold w1_def [symmetric] split: prod.splits)
  have na: "\<not> truthy (cloud_auth (registry_of entry w))"
    using assms(2) by (simp add: truthy_def)
  note run = internal_normal_setup_no_auth [OF reg na, of env]
  have a: "fst (async_setup_entry env entry w) = Inr True"
    by (simp add: eq)
  have b: "tasks_since w (snd (async_setup_entry env entry w)) = [NormalSetup entry]"
    using ts by (simp add: w1_def)
  have b': "events_since w (snd (async_setup_entry env entry w)) = debug_events entry w"
    by (simp add: eq)
  have c: "filter is_CloudLogin (events_since w (snd (snd (setup_cycle env entry w)))) = []"
    by (rule no_login_cycle_of_normal_setup) (rule eq)
  have d: "fst (snd (setup_cycle env entry w)) = [] \<and>
            StoreLoad (DOMAIN @ ''/'' @ u @ ''.json'')
              \<in> set (events_since w (snd (snd (setup_cycle env entry w)))) \<and>
            (\<forall>x. CloudGetDevices x
              \<notin> set (events_since w (snd (snd (setup_cycle env entry w)))))"
    if u: "data_username entry = Some u" for u
  proof -
    have ev: "\<exists>evs. events_since w (snd (internal_normal_setup env entry w1)) = evs
          \<and> StoreLoad (DOMAIN @ ''/'' @ u @ ''.json'') \<in> set evs
          \<and> (\<forall>x. CloudGetDevices x \<notin> set evs)"
      unfolding run events_since_def
      by (auto simp: internal_cache_setup_cached [OF reg u] cache_load_ok [OF u] t1
          debug_events_def populate_events_def transport_events_def
          split: option.splits)
    show ?thesis
      using ev by (simp add: cyc run internal_cache_setup_cached [OF reg u])
  qed
  from a b b' c d show ?thesis
    by blast
qed

theorem missing_credentials_no_login_witness:
  "fst (async_setup_entry (login_fails AuthError)
          (example_entry None (Some ''cloud'') NOT_LOADED) empty_world) = Inr True \<and>
   tasks_since empty_world (snd (async_setup_entry (login_fails AuthError)
          (example_entry None (Some ''cloud'') NOT_LOADED) empty_world))
     = [NormalSetup (example_entry None (Some ''cloud'') NOT_LOADED)] \<and>
   filter is_CloudLogin (events_since empty_world (snd (snd (setup_cycle (login_fails AuthError)
          (example_entry None (Some ''cloud'') NOT_LOADED) empty_world)))) = [] \<and>
   StoreLoad ''sonoff/user@example.com.json''
     \<in> set (events_since empty_world (snd (snd (setup_cycle (login_fails AuthError)
          (example_entry None (Some ''cloud'') NOT_LOADED) empty_world))))"
proof -
  let ?entry = "example_entry None (Some ''cloud'') NOT_LOADED"
  have s: "state ?entry \<noteq> SETUP_RETRY"
    by (simp add: example_entry_def)
  have a: "cloud_auth (registry_of ?entry empty_world) = None"
    by (simp add: example_defs)
  have p: "\<not> truthy (data_username ?entry) \<or> \<not> truthy (data_password ?entry)"
    by (simp add: example_defs)
  have f: "data_username ?entry = Some ''user@example.com''"
    by (simp_all add: example_defs)
  from missing_credentials_no_login [OF s a p, of "login_fails AuthError"]
  show ?thesis
    unfolding f by (simp add: DOMAIN_def)
qed

text \<open>
  The claim as stated, for every invocation, fails on a retry re-entry: lines 133-136 call
  the login without looking at the authentication or the credentials. Here the registry
  holds no authentication and the entry has no password, mode \<open>cloud\<close>: the login is
  attempted, the normal setup is not scheduled and the caller gets
  \<open>ConfigEntryNotReady\<close>.
\<close>

theorem missing_credentials_retry_counterexample:
  "state (example_entry None (Some ''cloud'') SETUP_RETRY) = SETUP_RETRY \<and>
   cloud_auth (registry_of (example_entry None (Some ''cloud'') SETUP_RETRY) empty_world) = None \<and>
   \<not> truthy (data_password (example_entry None (Some ''cloud'') SETUP_RETRY)) \<and>
   CloudLogin ''entryA'' (Some ''user@example.com'') None
     \<in> set (events_since empty_world
             (snd (async_setup_entry (login_fails TimeoutError)
                    (example_entry None (Some ''cloud'') SETUP_RETRY) empty_world))) \<and>
   tasks_since empty_world
     (snd (async_setup_entry (login_fails TimeoutError)
            (example_entry None (Some ''cloud'') SETUP_RETRY) empty_world)) = [] \<and>
   fst (async_setup_entry (login_fails TimeoutError)
          (example_entry None (Some ''cloud'') SETUP_RETRY) empty_world)
     = Inl (ConfigEntryNotReady TimeoutError)"
proof -
  let ?entry = "example_entry None (Some ''cloud'') SETUP_RETRY"
  have s: "state ?entry = SETUP_RETRY"
    by (simp add: example_entry_def)
  have l: "login_result (login_fails TimeoutError) = Inl TimeoutError"
    by (simp add: login_fails_def)
  have m: "get_mode ?entry = ''auto'' \<or> get_mode ?entry = ''cloud''"
    by (simp add: example_defs)
  have f: "entry_id ?entry = ''entryA''" "data_username ?entry = Some ''user@example.com''"
    "data_password ?entry = None" "debug_events ?entry empty_world = []"
    "cloud_auth (registry_of ?entry empty_world) = None"
    by (simp_all add: example_defs debug_events_def)
  show ?thesis
    using s f by (simp add: retry_login_failure [OF s l m] truthy_def)
qed


text \<open>
  The retry re-entry wraps every login failure, an \<open>AuthError\<close> included, in
  \<open>ConfigEntryNotReady\<close>; only the first attempt tells an \<open>AuthError\<close> apart.
\<close>

lemma retry_wraps_every_failure:
  assumes "state entry = SETUP_RETRY" and "login_result env = Inl e"
    and "get_mode entry = ''auto'' \<or> get_mode entry = ''cloud''"
  shows "fst (async_setup_entry env entry w) = Inl (ConfigEntryNotReady e)"
  by (simp add: retry_login_failure [OF assms])

lemma first_attempt_auth_failed:
  assumes "state entry \<noteq> SETUP_RETRY"
    and "cloud_auth (registry_of entry w) = None"
    and "truthy (data_username entry)" and "truthy (data_password entry)"
    and "login_result env = Inl AuthError"
    and "get_mode entry = ''auto'' \<or> get_mode entry = ''cloud''"
  shows "fst (async_setup_entry env entry w) = Inl (ConfigEntryAuthFailed AuthError)"
  using assms(6) by (auto simp: first_login_failure [OF assms(1-5)])

text \<open>
  Claim C1, at the input where the code departs from it: mode \<open>auto\<close>, both credentials
  present, the login raising \<open>AuthError\<close>. On the retry re-entry the caller gets
  \<open>ConfigEntryNotReady\<close>, the retryable failure; on a first attempt the same input gives
  \<open>ConfigEntryAuthFailed\<close>, as the claim says.
\<close>

theorem retry_invalid_credentials_not_ready:
  "fst (async_setup_entry (login_fails AuthError)
          (example_entry (Some ''secret'') None SETUP_RETRY) empty_world)
     = Inl (ConfigEntryNotReady AuthError) \<and>
   fst (async_setup_entry (login_fails AuthError)
          (example_entry (Some ''secret'') None NOT_LOADED) empty_world)
     = Inl (ConfigEntryAuthFailed AuthError)"
  by (simp add: async_setup_entry_def cloud_login_def Let_def example_defs)


section \<open>Properties of the command service\<close>

text \<open>A ten-character id that no registry holds: \<open>StopIteration\<close>, and nothing else happens.\<close>

lemma send_command_unknown_device:
  assumes "map_of call_data ''device'' = Some did" and "length did = 10"
    and "\<forall>(eid, r) \<in> set (registries w). devices r did = None"
  shows "send_command call_data w = (Inl StopIteration, w)"
proof -
  have "find (\<lambda>(eid, r). devices r did \<noteq> None) (registries w) = None"
    using assms(3) by (auto simp: find_None_iff)
  then show ?thesis
    using assms(1,2) by (simp add: send_command_def)
qed


text \<open>
  Claim C2, at the input where the code departs from it: a ten-character id held by no
  registry. The call raises, the state (trace included) is unchanged: nothing is logged
  and nothing is sent. An id of a wrong length, by contrast, is logged and the call
  returns.
\<close>

theorem send_command_unknown_device_raises:
  "send_command [(''device'', ''1000abcd12''), (''switch'', ''on'')] example_world
     = (Inl StopIteration, example_world) \<and>
   send_command [(''device'', ''123''), (''switch'', ''on'')] example_world
     = (Inr (), emit (LogError ''Wrong deviceid 123'') example_world)"
  by (simp add: send_command_def example_world_def empty_world_def)

section \<open>Two accounts reporting the same device\<close>

lemma fold_store_devices_None:
  "(fold (\<lambda>d m. m(deviceid d \<mapsto> d)) ds m) k = None \<longleftrightarrow> m k = None \<and> k \<notin> deviceid ` set ds"
  by (induction ds arbitrary: m) auto

lemma devices_setup_devices:
  "devices (setup_devices r ds) k = None \<longleftrightarrow> devices r k = None \<and> k \<notin> deviceid ` set ds"
  by (simp add: setup_devices_def fold_store_devices_None)

lemma registries_setup_devices_step:
  "registries (setup_devices_step eid r (Some ds) w) =
     (if ds = [] then registries w
      else AList.update eid
             (setup_devices r (filter (may_own (UNIQUE_DEVICES w) eid) ds)) (registries w))"
  by (simp add: setup_devices_step_def internal_unique_devices_fst [symmetric]
      split: prod.splits)

lemma table_setup_devices_step:
  "UNIQUE_DEVICES (setup_devices_step eid r (Some ds) w) k =
     (if UNIQUE_DEVICES w k = None \<and> k \<in> deviceid ` set ds then Some eid
      else UNIQUE_DEVICES w k)"
proof (cases "ds = []")
  case True
  then show ?thesis by (simp add: setup_devices_step_def)
next
  case False
  have "UNIQUE_DEVICES (setup_devices_step eid r (Some ds) w)
      = snd (internal_unique_devices eid ds (UNIQUE_DEVICES w))"
    using False by (simp add: setup_devices_step_def split: prod.splits)
  then show ?thesis
    by (simp add: internal_unique_devices_snd)
qed

lemma internal_cache_setup_given_state:
  assumes "map_of (registries w) (entry_id entry) = Some r"
  shows "map_of (registries (snd (internal_cache_setup entry (Some ds) w))) k =
     (if ds \<noteq> [] \<and> k = entry_id entry
      then Some (setup_devices r (filter (may_own (UNIQUE_DEVICES w) (entry_id entry)) ds))
      else map_of (registries w) k)"
    and "UNIQUE_DEVICES (snd (internal_cache_setup entry (Some ds) w)) k =
     (if UNIQUE_DEVICES w k = None \<and> k \<in> deviceid ` set ds then Some (entry_id entry)
      else UNIQUE_DEVICES w k)"
  by (simp_all add: internal_cache_setup_given [OF assms] registries_setup_devices_step
      table_setup_devices_step update_conv')


text \<open>
  Claim C5. Accounts A and B both report a device with the same id; when A's bootstrap
  starts, no other account owns the id and B's registry does not hold it. After A's
  setup-devices step and then B's, A's device map has the id, B's does not, and the
  ownership table names A.
\<close>

theorem first_account_owns_shared_device:
  assumes "entry_id entryA \<noteq> entry_id entryB"
    and "map_of (registries w) (entry_id entryA) = Some rA"
    and "map_of (registries w) (entry_id entryB) = Some rB"
    and "UNIQUE_DEVICES w did = None \<or> UNIQUE_DEVICES w did = Some (entry_id entryA)"
    and "devices rB did = None"
    and "dA \<in> set dsA" and "deviceid dA = did"
    and "dB \<in> set dsB" and "deviceid dB = did"
  shows "devices (registry_of entryA (setup_A_then_B entryA dsA entryB dsB w)) did \<noteq> None \<and>
         devices (registry_of entryB (setup_A_then_B entryA dsA entryB dsB w)) did = None \<and>
         UNIQUE_DEVICES (setup_A_then_B entryA dsA entryB dsB w) did = Some (entry_id entryA) \<and>
         did \<in> deviceid ` set (fst (internal_unique_devices (entry_id entryA) dsA
                                       (UNIQUE_DEVICES w))) \<and>
         did \<notin> deviceid ` set (fst (internal_unique_devices (entry_id entryB) dsB
                  (UNIQUE_DEVICES (snd (internal_cache_setup entryA (Some dsA) w)))))"
proof -
  define w1 where "w1 = snd (internal_cache_setup entryA (Some dsA) w)"
  define w2 where "w2 = snd (internal_cache_setup entryB (Some dsB) w1)"
  have w2: "setup_A_then_B entryA dsA entryB dsB w = w2"
    by (simp add: setup_A_then_B_def w1_def w2_def)
  from assms(6) have neA: "dsA \<noteq> []" by auto
  from assms(8) have neB: "dsB \<noteq> []" by auto
  have keepA: "dA \<in> set (filter (may_own (UNIQUE_DEVICES w) (entry_id entryA)) dsA)"
    using assms(4,6,7) by (auto simp: may_own_def)
  have regA1: "map_of (registries w1) (entry_id entryA) =
      Some (setup_devices rA (filter (may_own (UNIQUE_DEVICES w) (entry_id entryA)) dsA))"
    using neA by (simp add: w1_def internal_cache_setup_given_state(1) [OF assms(2)])
  have regB1: "map_of (registries w1) (entry_id entryB) = Some rB"
    using assms(1,3) by (auto simp: w1_def internal_cache_setup_given_state(1) [OF assms(2)])
  have tab1: "UNIQUE_DEVICES w1 did = Some (entry_id entryA)"
    using assms(4,6,7)
    by (auto simp: w1_def internal_cache_setup_given_state(2) [OF assms(2)])
  have dropB: "did \<notin> deviceid ` set (filter (may_own (UNIQUE_DEVICES w1) (entry_id entryB)) dsB)"
    using tab1 assms(1) by (auto simp: may_own_def)
  have regA2: "map_of (registries w2) (entry_id entryA) =
      Some (setup_devices rA (filter (may_own (UNIQUE_DEVICES w) (entry_id entryA)) dsA))"
    using assms(1) regA1 by (simp add: w2_def internal_cache_setup_given_state(1) [OF regB1])
  have regB2: "map_of (registries w2) (entry_id entryB) =
      Some (setup_devices rB (filter (may_own (UNIQUE_DEVICES w1) (entry_id entryB)) dsB))"
    using neB by (simp add: w2_def internal_cache_setup_given_state(1) [OF regB1])
  have tab2: "UNIQUE_DEVICES w2 did = Some (entry_id entryA)"
    using tab1 by (simp add: w2_def internal_cache_setup_given_state(2) [OF regB1])
  have a: "devices (registry_of entryA w2) did \<noteq> None"
    using keepA assms(7) by (auto simp: registry_of_def regA2 devices_setup_devices)
  have b: "devices (registry_of entryB w2) did = None"
    using dropB assms(5) by (simp add: registry_of_def regB2 devices_setup_devices)
  have c: "did \<in> deviceid ` set (fst (internal_unique_devices (entry_id entryA) dsA
                                       (UNIQUE_DEVICES w)))"
    using keepA assms(7) by (auto simp: internal_unique_devices_fst)
  have d: "did \<notin> deviceid ` set (fst (internal_unique_devices (entry_id entryB) dsB
                                       (UNIQUE_DEVICES w1)))"
    using dropB by (simp add: internal_unique_devices_fst)
  from a b tab2 c d show ?thesis
    unfolding w2 w1_def by simp
qed


theorem first_account_owns_shared_device_witness:
  "devices (registry_of (example_entry None None LOADED)
      (setup_A_then_B (example_entry None None LOADED) [shared_device ''a'']
         ((example_entry None None LOADED)\<lparr>entry_id := ''entryB''\<rparr>) [shared_device ''b'']
         two_accounts)) ''1000abcd12'' \<noteq> None \<and>
   devices (registry_of ((example_entry None None LOADED)\<lparr>entry_id := ''entryB''\<rparr>)
      (setup_A_then_B (example_entry None None LOADED) [shared_device ''a'']
         ((example_entry None None LOADED)\<lparr>entry_id := ''entryB''\<rparr>) [shared_device ''b'']
         two_accounts)) ''1000abcd12'' = None"
proof -
  let ?A = "example_entry None None LOADED"
  let ?B = "(example_entry None None LOADED)\<lparr>entry_id := ''entryB''\<rparr>"
  have ne: "entry_id ?A \<noteq> entry_id ?B"
    by (simp add: example_entry_def)
  have rA: "map_of (registries two_accounts) (entry_id ?A) = Some new_XRegistry"
    and rB: "map_of (registries two_accounts) (entry_id ?B) = Some new_XRegistry"
    by (simp_all add: example_entry_def two_accounts_def)
  have free: "UNIQUE_DEVICES two_accounts ''1000abcd12'' = None
      \<or> UNIQUE_DEVICES two_accounts ''1000abcd12'' = Some (entry_id ?A)"
    by (simp add: two_accounts_def empty_world_def)
  have nB: "devices new_XRegistry ''1000abcd12'' = None"
    by (simp add: new_XRegistry_def)
  from first_account_owns_shared_device [OF ne rA rB free nB,
      of "shared_device ''a''" "[shared_device ''a'']" "shared_device ''b''" "[shared_device ''b'']"]
  show ?thesis
    by (simp add: shared_device_def)
qed

end
